theory Spec2Isabelle
  imports Complex_Main "HOL-Library.Multiset"
begin

section \<open>Data model of the universe raw collector\<close>

text \<open>
  The sampling level of \<^verbatim>\<open>MarketSchedule.level\<close> is one of the four string literals
  "A", "B", "C", "D" that the collector ever writes; it is modelled as an enumeration.
\<close>

datatype level = A | B | C | D

definition LEVEL_A_INTERVAL_MS :: int where "LEVEL_A_INTERVAL_MS = 250"
definition LEVEL_B_INTERVAL_MS :: int where "LEVEL_B_INTERVAL_MS = 2000"
definition LEVEL_C_INTERVAL_MS :: int where "LEVEL_C_INTERVAL_MS = 2000"
definition LEVEL_D_INTERVAL_MS :: int where "LEVEL_D_INTERVAL_MS = 2000"

definition SPREAD_BPS_IGNORE_THRESHOLD :: real where "SPREAD_BPS_IGNORE_THRESHOLD = 30"
definition SPREAD_BPS_NO_A_THRESHOLD :: real where "SPREAD_BPS_NO_A_THRESHOLD = 15"

definition SAFETY_ASSETS :: "string set" where
  "SAFETY_ASSETS = {''BTC'', ''ETH'', ''SOL''}"

text \<open>The dataclasses of the module. Python floats are read as reals.\<close>

record MarketInfo =
  mi_base :: string
  mi_quote :: string
  mi_market_type :: string
  mi_variant :: string
  mi_symbol_raw :: string

record MarketRanking =
  mr_symbol_raw :: string
  mr_rank :: int
  mr_score :: real
  mr_volume_24h_usd :: "real option"
  mr_open_interest_usd :: "real option"
  mr_spread_bps :: "real option"

record MarketSchedule =
  ms_symbol_raw :: string
  ms_level :: level
  ms_next_due_ms :: int
  ms_interval_ms :: int

record MarketSample =
  smp_ts_ms :: int
  smp_base :: string
  smp_quote :: string
  smp_market_type :: string
  smp_variant :: string
  smp_symbol_raw :: string
  smp_bid :: "real option"
  smp_ask :: "real option"
  smp_mid :: "real option"
  smp_spread_bps :: "real option"
  smp_mark_price :: "real option"
  smp_funding_rate :: "real option"
  smp_open_interest_usd :: "real option"
  smp_volume_24h_usd :: "real option"
  smp_level :: level
  smp_score :: "real option"
  smp_stale_flag :: bool

text \<open>
  An entry of \<^verbatim>\<open>market_contexts\<close> is a JSON object of the exchange; the model keeps the
  four numbers that \<^verbatim>\<open>collect_sample\<close> parses out of it with \<^verbatim>\<open>_parse_float\<close>
  (absent or unparsable: \<open>None\<close>).
\<close>

record asset_ctx =
  ctx_mark_px :: "real option"
  ctx_funding :: "real option"
  ctx_open_interest :: "real option"
  ctx_day_ntl_vlm :: "real option"

text \<open>
  The mutable attributes of \<^verbatim>\<open>UniverseRawCollector\<close> (and of its \<^verbatim>\<open>SampleMetrics\<close>)
  that the modelled methods read or write. A ranking dictionary is an association list in
  insertion order, which is the order Python iterates it in. The two \<^verbatim>\<open>defaultdict(int)\<close>
  counters are total functions; a fresh collector has them constantly 0.
\<close>

record collector =
  markets :: "MarketInfo list"
  rankings :: "(string \<times> MarketRanking) list"
  schedules :: "string \<rightharpoonup> MarketSchedule"
  promotion_counters :: "string \<Rightarrow> int"
  demotion_counters :: "string \<Rightarrow> int"
  last_promotions :: "string list"
  last_demotions :: "string list"
  last_window_start :: real
  promotions_count :: int
  demotions_count :: int
  skipped_spread_gt_30 :: int
  buffer :: "MarketSample list"
  rows_buffered :: int
  rows_inserted :: int
  inserts_count :: int
  market_contexts :: "string \<rightharpoonup> asset_ctx"

definition mk_schedule :: "string \<Rightarrow> level \<Rightarrow> int \<Rightarrow> int \<Rightarrow> MarketSchedule" where
  "mk_schedule s l d i =
     \<lparr>ms_symbol_raw = s, ms_level = l, ms_next_due_ms = d, ms_interval_ms = i\<rparr>"

section \<open>Level state machine\<close>

definition get_interval_for_level :: "level \<Rightarrow> int" where
  "get_interval_for_level lv =
     (if lv = A then LEVEL_A_INTERVAL_MS
      else if lv = B then LEVEL_B_INTERVAL_MS
      else if lv = C then LEVEL_C_INTERVAL_MS
      else LEVEL_D_INTERVAL_MS)"

definition assign_level_from_rank :: "string \<Rightarrow> int \<Rightarrow> real option \<Rightarrow> level" where
  "assign_level_from_rank symbol_raw rnk spread_bps =
     (if (case spread_bps of Some s \<Rightarrow> s > SPREAD_BPS_NO_A_THRESHOLD | None \<Rightarrow> False)
         \<and> rnk \<le> 100 then B
      else if spread_bps = None \<and> rnk \<le> 100 then B
      else if rnk \<le> 100 then A
      else if rnk \<le> 200 then B
      else if rnk \<le> 300 then C
      else if rnk \<le> 400 then D
      else D)"

text \<open>
  One iteration of the loop of \<^verbatim>\<open>_update_levels_with_hysteresis\<close> over
  \<^verbatim>\<open>rankings.items()\<close>. The accumulator carries the collector and the two local lists
  \<^verbatim>\<open>promotions_this_cycle\<close> and \<^verbatim>\<open>demotions_this_cycle\<close>. The three branches are the
  source's \<^verbatim>\<open>if current_level != "A"\<close>, \<^verbatim>\<open>elif current_level == "A"\<close> and \<^verbatim>\<open>else\<close>.
\<close>

definition current_level_of :: "collector \<Rightarrow> string \<Rightarrow> level" where
  "current_level_of st symbol_raw =
     (case schedules st symbol_raw of Some s \<Rightarrow> ms_level s | None \<Rightarrow> D)"

definition promotion_branch ::
  "string \<Rightarrow> MarketRanking \<Rightarrow> level \<Rightarrow> collector \<times> string list \<times> string list
     \<Rightarrow> collector \<times> string list \<times> string list" where
  "promotion_branch symbol_raw ranking current_level acc =
     (case acc of (st, promos, demos) \<Rightarrow>
        if mr_rank ranking \<le> 100
           \<and> (case mr_spread_bps ranking of None \<Rightarrow> True
               | Some s \<Rightarrow> s \<le> SPREAD_BPS_NO_A_THRESHOLD)
        then
          (let st1 = st\<lparr>promotion_counters :=
                         (promotion_counters st)(symbol_raw := promotion_counters st symbol_raw + 1)\<rparr>
           in if promotion_counters st1 symbol_raw \<ge> 3 then
                (let new_level = A;
                     promos1 = (if new_level \<noteq> current_level then promos @ [symbol_raw] else promos);
                     st2 = st1\<lparr>schedules :=
                                 (schedules st1)(symbol_raw \<mapsto>
                                    mk_schedule symbol_raw new_level 0 LEVEL_A_INTERVAL_MS)\<rparr>
                 in (st2\<lparr>promotion_counters := (promotion_counters st2)(symbol_raw := 0)\<rparr>,
                     promos1, demos))
              else (st1, promos, demos))
        else (st\<lparr>promotion_counters := (promotion_counters st)(symbol_raw := 0)\<rparr>,
              promos, demos))"

definition demotion_branch ::
  "string \<Rightarrow> MarketRanking \<Rightarrow> level \<Rightarrow> collector \<times> string list \<times> string list
     \<Rightarrow> collector \<times> string list \<times> string list" where
  "demotion_branch symbol_raw ranking current_level acc =
     (case acc of (st, promos, demos) \<Rightarrow>
        (let bump = st\<lparr>demotion_counters :=
                         (demotion_counters st)(symbol_raw := demotion_counters st symbol_raw + 1)\<rparr>;
             (st1, should_demote) =
               (if mr_rank ranking > 120 then (bump, demotion_counters bump symbol_raw \<ge> 3)
                else if (case mr_spread_bps ranking of Some s \<Rightarrow> s > 20 | None \<Rightarrow> False)
                  then (bump, demotion_counters bump symbol_raw \<ge> 3)
                else (st\<lparr>demotion_counters := (demotion_counters st)(symbol_raw := 0)\<rparr>, False))
         in if should_demote then
              (let new_level = assign_level_from_rank symbol_raw (mr_rank ranking)
                                 (mr_spread_bps ranking);
                   demos1 = (if new_level \<noteq> current_level then demos @ [symbol_raw] else demos);
                   st2 = st1\<lparr>schedules :=
                               (schedules st1)(symbol_raw \<mapsto>
                                  mk_schedule symbol_raw new_level 0
                                    (get_interval_for_level new_level))\<rparr>
               in (st2\<lparr>demotion_counters := (demotion_counters st2)(symbol_raw := 0)\<rparr>,
                   promos, demos1))
            else (st1, promos, demos)))"

definition direct_branch ::
  "string \<Rightarrow> MarketRanking \<Rightarrow> collector \<times> string list \<times> string list
     \<Rightarrow> collector \<times> string list \<times> string list" where
  "direct_branch symbol_raw ranking acc =
     (case acc of (st, promos, demos) \<Rightarrow>
        (let new_level = assign_level_from_rank symbol_raw (mr_rank ranking)
                           (mr_spread_bps ranking)
         in (st\<lparr>schedules :=
                  (schedules st)(symbol_raw \<mapsto>
                     mk_schedule symbol_raw new_level 0 (get_interval_for_level new_level))\<rparr>,
             promos, demos)))"

definition hysteresis_step ::
  "string \<times> MarketRanking \<Rightarrow> collector \<times> string list \<times> string list
     \<Rightarrow> collector \<times> string list \<times> string list" where
  "hysteresis_step entry acc =
     (case entry of (symbol_raw, ranking) \<Rightarrow>
        (let current_level = current_level_of (fst acc) symbol_raw
         in if current_level \<noteq> A then promotion_branch symbol_raw ranking current_level acc
            else if current_level = A then demotion_branch symbol_raw ranking current_level acc
            else direct_branch symbol_raw ranking acc))"

definition update_levels_with_hysteresis ::
  "real \<Rightarrow> (string \<times> MarketRanking) list \<Rightarrow> collector \<Rightarrow> collector" where
  "update_levels_with_hysteresis now rks st =
     (let st0 = (if now - last_window_start st \<ge> 60
                 then st\<lparr>last_promotions := [], last_demotions := [], last_window_start := now\<rparr>
                 else st);
          (st1, promos, demos) = fold hysteresis_step rks (st0, [], [])
      in st1\<lparr>last_promotions := last_promotions st1 @ promos,
              last_demotions := last_demotions st1 @ demos,
              promotions_count := promotions_count st1 + int (length promos),
              demotions_count := demotions_count st1 + int (length demos)\<rparr>)"

text \<open>
  \<^verbatim>\<open>_apply_fallback_safety\<close>: the loop over \<^verbatim>\<open>self.markets\<close>. The variables
  \<^verbatim>\<open>fallback_active\<close> and \<^verbatim>\<open>fallback_reason\<close> only feed a log line and are left out; the
  ranking map then has no effect on the state, as in the source.
\<close>

definition fallback_step :: "MarketInfo \<Rightarrow> collector \<Rightarrow> collector" where
  "fallback_step market st =
     (if mi_base market \<in> SAFETY_ASSETS then
        (let symbol_raw = mi_symbol_raw market
         in case schedules st symbol_raw of
              Some current_schedule \<Rightarrow>
                if ms_level current_schedule \<notin> {A, B}
                then st\<lparr>schedules :=
                          (schedules st)(symbol_raw \<mapsto>
                             mk_schedule symbol_raw B 0 LEVEL_B_INTERVAL_MS)\<rparr>
                else st
            | None \<Rightarrow> st)
      else st)"

definition apply_fallback_safety ::
  "(string \<times> MarketRanking) list \<Rightarrow> collector \<Rightarrow> collector" where
  "apply_fallback_safety rks st = fold fallback_step (markets st) st"

text \<open>
  \<^verbatim>\<open>_refresh_rankings\<close>, given the dictionary that \<^verbatim>\<open>_calculate_rankings\<close> returned
  (empty when there is no data or when it caught an exception).
\<close>

definition init_schedule_step ::
  "(string \<times> MarketRanking) list \<Rightarrow> MarketInfo \<Rightarrow> collector \<Rightarrow> collector" where
  "init_schedule_step rks market st =
     (if schedules st (mi_symbol_raw market) = None then
        (let lv = (case map_of rks (mi_symbol_raw market) of
                     Some ranking \<Rightarrow>
                       assign_level_from_rank (mi_symbol_raw market) (mr_rank ranking)
                         (mr_spread_bps ranking)
                   | None \<Rightarrow> D)
         in st\<lparr>schedules :=
                 (schedules st)(mi_symbol_raw market \<mapsto>
                    mk_schedule (mi_symbol_raw market) lv 0 (get_interval_for_level lv))\<rparr>)
      else st)"

definition refresh_rankings ::
  "real \<Rightarrow> (string \<times> MarketRanking) list \<Rightarrow> collector \<Rightarrow> collector" where
  "refresh_rankings now rks st =
     (if rks = [] then apply_fallback_safety [] st
      else
        (let st1 = st\<lparr>rankings := rks\<rparr>;
             st2 = update_levels_with_hysteresis now rks st1;
             st3 = apply_fallback_safety rks st2
         in fold (init_schedule_step rks) (markets st3) st3))"

section \<open>Scheduler\<close>

text \<open>
  \<^verbatim>\<open>_get_markets_due_for_sampling\<close>: the loop over \<^verbatim>\<open>self.markets\<close>, with the list
  \<^verbatim>\<open>due_markets\<close> and the collector (whose schedule objects are mutated) as accumulator.
\<close>

definition due_step ::
  "int \<Rightarrow> MarketInfo \<Rightarrow> MarketInfo list \<times> collector \<Rightarrow> MarketInfo list \<times> collector" where
  "due_step now_ms market acc =
     (case acc of (due_markets, st) \<Rightarrow>
        (case schedules st (mi_symbol_raw market) of
           None \<Rightarrow> (due_markets @ [market], st)
         | Some schedule \<Rightarrow>
             if now_ms \<ge> ms_next_due_ms schedule then
               (due_markets @ [market],
                st\<lparr>schedules :=
                     (schedules st)(mi_symbol_raw market \<mapsto>
                        schedule\<lparr>ms_next_due_ms := now_ms + ms_interval_ms schedule\<rparr>)\<rparr>)
             else (due_markets, st)))"

definition get_markets_due_for_sampling ::
  "int \<Rightarrow> collector \<Rightarrow> MarketInfo list \<times> collector" where
  "get_markets_due_for_sampling now_ms st = fold (due_step now_ms) (markets st) ([], st)"

section \<open>Ranking engine\<close>

definition calculate_percentile_rank :: "real \<Rightarrow> real list \<Rightarrow> real" where
  "calculate_percentile_rank val all_values =
     (if all_values = [] then 0
      else
        (let sorted_values = sort all_values;
             count_below = length (filter (\<lambda>v. v < val) sorted_values);
             count_equal = length (filter (\<lambda>v. v = val) sorted_values)
         in (real count_below + real count_equal / 2) / real (length sorted_values)))"

text \<open>The outcome of a call that may raise: the value, or the text of the exception.\<close>

datatype 'a outcome = Ok 'a | Err string

text \<open>
  \<^verbatim>\<open>_calculate_rankings\<close>, given the outcome of its query (the samples of the last five
  minutes, newest first). \<open>group_latest\<close> is the loop that keeps the first sample met for
  each symbol; \<open>or_zero\<close> is Python's \<^verbatim>\<open>x or 0.0\<close> on an optional float.
\<close>

fun group_latest ::
  "MarketSample list \<Rightarrow> (string \<times> MarketSample) list \<Rightarrow> (string \<times> MarketSample) list" where
  "group_latest [] market_data = market_data"
| "group_latest (sample # rest) market_data =
     group_latest rest
       (if smp_symbol_raw sample \<in> set (map fst market_data) then market_data
        else market_data @ [(smp_symbol_raw sample, sample)])"

definition or_zero :: "real option \<Rightarrow> real" where
  "or_zero x = (case x of None \<Rightarrow> 0 | Some v \<Rightarrow> v)"

definition score_of :: "real list \<Rightarrow> real list \<Rightarrow> real list \<Rightarrow> MarketSample \<Rightarrow> real" where
  "score_of volumes ois spreads sample =
     (let volume = or_zero (smp_volume_24h_usd sample);
          oi = or_zero (smp_open_interest_usd sample);
          spread = or_zero (smp_spread_bps sample);
          volume_norm = (if volumes \<noteq> [] then calculate_percentile_rank volume volumes else 0);
          oi_norm = (if ois \<noteq> [] then calculate_percentile_rank oi ois else 0);
          spread_norm = (if spreads \<noteq> [] then calculate_percentile_rank spread spreads else 0)
      in 6 / 10 * volume_norm + 3 / 10 * oi_norm - 1 / 10 * spread_norm)"

definition set_rank ::
  "string \<Rightarrow> int \<Rightarrow> (string \<times> MarketRanking) list \<Rightarrow> (string \<times> MarketRanking) list" where
  "set_rank symbol_raw rnk rks =
     map (\<lambda>(k, r). if k = symbol_raw then (k, r\<lparr>mr_rank := rnk\<rparr>) else (k, r)) rks"

definition assign_rank_step ::
  "nat \<times> string \<times> real \<Rightarrow> (string \<times> MarketRanking) list \<Rightarrow> (string \<times> MarketRanking) list" where
  "assign_rank_step e rks =
     (case e of (rnk, symbol_raw, sc) \<Rightarrow>
        if symbol_raw \<in> set (map fst rks) then set_rank symbol_raw (int rnk) rks else rks)"

definition sort_scores_desc :: "(string \<times> real) list \<Rightarrow> (string \<times> real) list" where
  "sort_scores_desc market_scores = sort_key (\<lambda>x. - snd x) market_scores"

definition rank_market_data :: "(string \<times> MarketSample) list \<Rightarrow> (string \<times> MarketRanking) list" where
  "rank_market_data market_data =
     (let volumes = List.map_filter (\<lambda>(k, s). smp_volume_24h_usd s) market_data;
          ois = List.map_filter (\<lambda>(k, s). smp_open_interest_usd s) market_data;
          spreads = List.map_filter (\<lambda>(k, s). smp_spread_bps s) market_data;
          rks0 = map (\<lambda>(k, s).
                   (k, \<lparr>mr_symbol_raw = k, mr_rank = 0,
                        mr_score = score_of volumes ois spreads s,
                        mr_volume_24h_usd = smp_volume_24h_usd s,
                        mr_open_interest_usd = smp_open_interest_usd s,
                        mr_spread_bps = smp_spread_bps s\<rparr>)) market_data;
          market_scores = map (\<lambda>(k, s). (k, score_of volumes ois spreads s)) market_data
      in fold assign_rank_step (enumerate 1 (sort_scores_desc market_scores)) rks0)"

text \<open>The list \<^verbatim>\<open>market_scores\<close> that the loop of \<^verbatim>\<open>_calculate_rankings\<close> builds.\<close>

definition market_scores_of :: "(string \<times> MarketSample) list \<Rightarrow> (string \<times> real) list" where
  "market_scores_of market_data =
     (let volumes = List.map_filter (\<lambda>(k, s). smp_volume_24h_usd s) market_data;
          ois = List.map_filter (\<lambda>(k, s). smp_open_interest_usd s) market_data;
          spreads = List.map_filter (\<lambda>(k, s). smp_spread_bps s) market_data
      in map (\<lambda>(k, s). (k, score_of volumes ois spreads s)) market_data)"

text \<open>The position of the first occurrence of \<open>a\<close> in \<open>xs\<close> (its length when there is none).\<close>

definition first_index :: "'a list \<Rightarrow> 'a \<Rightarrow> nat" where
  "first_index xs a = length (takeWhile (\<lambda>y. y \<noteq> a) xs)"

definition calculate_rankings ::
  "MarketSample list outcome \<Rightarrow> (string \<times> MarketRanking) list" where
  "calculate_rankings query =
     (case query of
        Ok latest_samples \<Rightarrow> rank_market_data (group_latest latest_samples [])
      | Err e \<Rightarrow> [])"

section \<open>Sampler\<close>

text \<open>
  What \<^verbatim>\<open>collect_sample\<close> gets out of the order book: either the fetch or the parsing
  raised, or the two calls of \<^verbatim>\<open>_best_price\<close> returned (\<open>None\<close> on both sides when the
  snapshot was empty or had no bids or no asks).
\<close>

datatype book = Raised | Best "real option" "real option"

definition truthy :: "real option \<Rightarrow> bool" where
  "truthy x = (case x of None \<Rightarrow> False | Some v \<Rightarrow> v \<noteq> 0)"

definition book_prices ::
  "book \<Rightarrow> real option \<times> real option \<times> real option \<times> real option \<times> bool" where
  "book_prices bk =
     (case bk of
        Raised \<Rightarrow> (None, None, None, None, True)
      | Best best_bid best_ask \<Rightarrow>
          if truthy best_bid \<and> truthy best_ask \<and> the best_bid > 0 \<and> the best_ask > 0 then
            (let bid = the best_bid; ask = the best_ask; mid = (bid + ask) / 2
             in (Some bid, Some ask, Some mid,
                 (if mid > 0 then Some ((ask - bid) / mid * 10000) else None), False))
          else (None, None, None, None, False))"

definition computed_spread_bps :: "book \<Rightarrow> real option" where
  "computed_spread_bps bk = (case book_prices bk of (bid, ask, mid, spread_bps, stale0) \<Rightarrow> spread_bps)"

definition collect_sample ::
  "int \<Rightarrow> book \<Rightarrow> MarketInfo \<Rightarrow> collector \<Rightarrow> MarketSample option \<times> collector" where
  "collect_sample ts_ms bk market st =
     (case book_prices bk of (bid, ask, mid, spread_bps, stale0) \<Rightarrow>
        if (case spread_bps of Some s \<Rightarrow> s > SPREAD_BPS_IGNORE_THRESHOLD | None \<Rightarrow> False)
        then (None, st\<lparr>skipped_spread_gt_30 := skipped_spread_gt_30 st + 1\<rparr>)
        else
          (let ctx = market_contexts st (mi_base market);
               perp = (mi_market_type market = ''PERP'');
               mark_price = (case ctx of Some c \<Rightarrow> if perp then ctx_mark_px c else None
                             | None \<Rightarrow> None);
               funding_rate = (case ctx of Some c \<Rightarrow> if perp then ctx_funding c else None
                               | None \<Rightarrow> None);
               open_interest_usd =
                 (case ctx of Some c \<Rightarrow> if perp then ctx_open_interest c else None
                  | None \<Rightarrow> None);
               volume_24h_usd = (case ctx of Some c \<Rightarrow> ctx_day_ntl_vlm c | None \<Rightarrow> None);
               stale_flag = (if bid = None \<or> ask = None then True else stale0);
               ranking = map_of (rankings st) (mi_symbol_raw market);
               sc = (case ranking of Some r \<Rightarrow> Some (mr_score r) | None \<Rightarrow> None);
               lv = (case ranking of
                       Some r \<Rightarrow> (case schedules st (mi_symbol_raw market) of
                                    Some schedule \<Rightarrow> ms_level schedule | None \<Rightarrow> D)
                     | None \<Rightarrow> D)
           in (Some \<lparr>smp_ts_ms = ts_ms, smp_base = mi_base market, smp_quote = mi_quote market,
                     smp_market_type = mi_market_type market, smp_variant = mi_variant market,
                     smp_symbol_raw = mi_symbol_raw market, smp_bid = bid, smp_ask = ask,
                     smp_mid = mid, smp_spread_bps = spread_bps, smp_mark_price = mark_price,
                     smp_funding_rate = funding_rate, smp_open_interest_usd = open_interest_usd,
                     smp_volume_24h_usd = volume_24h_usd, smp_level = lv, smp_score = sc,
                     smp_stale_flag = stale_flag\<rparr>, st)))"

section \<open>Buffer and persistence\<close>

text \<open>
  \<^verbatim>\<open>flush_buffer\<close> against a store holding the persisted rows. \<open>commit_ok\<close> says whether
  \<^verbatim>\<open>session.commit()\<close> succeeds (a failed transaction persists nothing); \<open>arrivals\<close> are
  the samples that producers append between the two critical sections (none when the
  flusher is not interleaved). The measured duration is not modelled.
\<close>

definition add_to_buffer :: "MarketSample \<Rightarrow> collector \<Rightarrow> collector" where
  "add_to_buffer sample st =
     (let b = buffer st @ [sample] in st\<lparr>buffer := b, rows_buffered := int (length b)\<rparr>)"

definition record_insert :: "int \<Rightarrow> collector \<Rightarrow> collector" where
  "record_insert rows st =
     st\<lparr>rows_inserted := rows_inserted st + rows, inserts_count := inserts_count st + 1\<rparr>"

definition flush_buffer ::
  "bool \<Rightarrow> MarketSample list \<Rightarrow> collector \<times> MarketSample list
     \<Rightarrow> int \<times> collector \<times> MarketSample list" where
  "flush_buffer commit_ok arrivals cs =
     (case cs of (st, store) \<Rightarrow>
        if buffer st = [] then (0, st, store)
        else
          (let samples = buffer st;
               st1 = st\<lparr>buffer := [], rows_buffered := 0\<rparr>;
               st2 = fold add_to_buffer arrivals st1
           in if commit_ok then
                (int (length samples), record_insert (int (length samples)) st2,
                 store @ samples)
              else
                (let b = buffer st2 @ samples;
                     st3 = st2\<lparr>buffer := b, rows_buffered := int (length b)\<rparr>
                 in (0, record_insert 0 st3, store))))"

text \<open>
  \<^verbatim>\<open>get_db_rows_24h\<close>: \<open>query\<close> gives the outcome of the count query at each execution
  (0 for the first); the method executes it once.
\<close>

definition get_db_rows_24h :: "(nat \<Rightarrow> int outcome) \<Rightarrow> int" where
  "get_db_rows_24h query = (case query 0 of Ok n \<Rightarrow> n | Err e \<Rightarrow> 0)"

section \<open>Retry on a locked database (snapshot export)\<close>

text \<open>\<^verbatim>\<open>str.lower\<close> on the ASCII letters; other characters are kept.\<close>

definition lower_char :: "char \<Rightarrow> char" where
  "lower_char c =
     (case map_of (zip ''ABCDEFGHIJKLMNOPQRSTUVWXYZ'' ''abcdefghijklmnopqrstuvwxyz'') c of
        Some l \<Rightarrow> l
      | None \<Rightarrow> c)"

definition lower :: "string \<Rightarrow> string" where
  "lower s = map lower_char s"

fun starts_with :: "string \<Rightarrow> string \<Rightarrow> bool" where
  "starts_with [] s = True"
| "starts_with (p # ps) [] = False"
| "starts_with (p # ps) (c # cs) = (p = c \<and> starts_with ps cs)"

fun contains :: "string \<Rightarrow> string \<Rightarrow> bool" where
  "contains p [] = (p = [])"
| "contains p (c # cs) = (starts_with p (c # cs) \<or> contains p cs)"

definition is_locked :: "string \<Rightarrow> bool" where
  "is_locked e =
     (let error_str = lower e
      in contains ''locked'' error_str \<or> contains ''database is locked'' error_str)"

text \<open>
  The result of \<^verbatim>\<open>_retry_on_lock\<close>: the value of \<^verbatim>\<open>func()\<close>, the \<^verbatim>\<open>None\<close> returned
  when the loop runs out, or the exception that leaves the function.
\<close>

datatype 'a retry_result = Returned 'a | ReturnedNone | Raises string

text \<open>
  \<^verbatim>\<open>_retry_on_lock\<close>: \<open>func k\<close> is the outcome of the call of \<^verbatim>\<open>func()\<close> made in
  iteration \<open>k\<close> of \<^verbatim>\<open>for attempt in range(max_retries)\<close>. The second component is the list
  of the \<^verbatim>\<open>time.sleep\<close> durations, in order. With an empty \<^verbatim>\<open>delays\<close>, indexing raises
  IndexError inside the handler.
\<close>

function retry_loop ::
  "(nat \<Rightarrow> 'a outcome) \<Rightarrow> int \<Rightarrow> real list \<Rightarrow> nat \<Rightarrow> real list \<Rightarrow> 'a retry_result \<times> real list" where
  "retry_loop func max_retries delays attempt slept =
     (if int attempt \<ge> max_retries then (ReturnedNone, slept)
      else
        (case func attempt of
           Ok v \<Rightarrow> (Returned v, slept)
         | Err e \<Rightarrow>
             if is_locked e then
               (if int attempt < max_retries - 1 then
                  (if delays = [] then (Raises ''IndexError'', slept)
                   else
                     (let delay = delays ! (min attempt (length delays - 1))
                      in retry_loop func max_retries delays (Suc attempt) (slept @ [delay])))
                else (Raises e, slept))
             else (Raises e, slept)))"
  by pat_completeness auto
termination
  by (relation "measure (\<lambda>(func, max_retries, delays, attempt, slept). nat max_retries - attempt)")
     auto

definition retry_on_lock ::
  "(nat \<Rightarrow> 'a outcome) \<Rightarrow> int \<Rightarrow> real list \<Rightarrow> 'a retry_result \<times> real list" where
  "retry_on_lock func max_retries delays = retry_loop func max_retries delays 0 []"

definition default_max_retries :: int where
  "default_max_retries = 3"

definition default_delays :: "real list" where
  "default_delays = [2 / 10, 5 / 10, 1]"

section \<open>Initial state and small catalogs\<close>

text \<open>\<^verbatim>\<open>__init__\<close>: the collector as constructed at time \<open>now\<close>.\<close>

definition init_collector :: "real \<Rightarrow> collector" where
  "init_collector now =
     \<lparr>markets = [], rankings = [], schedules = Map.empty,
      promotion_counters = (\<lambda>k. 0), demotion_counters = (\<lambda>k. 0),
      last_promotions = [], last_demotions = [], last_window_start = now,
      promotions_count = 0, demotions_count = 0, skipped_spread_gt_30 = 0,
      buffer = [], rows_buffered = 0, rows_inserted = 0, inserts_count = 0,
      market_contexts = Map.empty\<rparr>"

text \<open>A perp market as \<^verbatim>\<open>discover_markets\<close> builds it from a universe entry named \<open>b\<close>.\<close>

definition perp_market :: "string \<Rightarrow> MarketInfo" where
  "perp_market b =
     \<lparr>mi_base = b, mi_quote = ''USD'', mi_market_type = ''PERP'', mi_variant = ''USDC'',
      mi_symbol_raw = b\<rparr>"

text \<open>An entry of a ranking dictionary with the given rank and spread.\<close>

definition ranking_of :: "string \<Rightarrow> int \<Rightarrow> real option \<Rightarrow> string \<times> MarketRanking" where
  "ranking_of k rnk spread =
     (k, \<lparr>mr_symbol_raw = k, mr_rank = rnk, mr_score = 0, mr_volume_24h_usd = None,
          mr_open_interest_usd = None, mr_spread_bps = spread\<rparr>)"

text \<open>A sample of symbol \<open>k\<close> taken at \<open>ts\<close> with no book and no context.\<close>

definition empty_sample :: "int \<Rightarrow> string \<Rightarrow> MarketSample" where
  "empty_sample ts k =
     \<lparr>smp_ts_ms = ts, smp_base = k, smp_quote = ''USD'', smp_market_type = ''PERP'',
      smp_variant = ''USDC'', smp_symbol_raw = k, smp_bid = None, smp_ask = None,
      smp_mid = None, smp_spread_bps = None, smp_mark_price = None, smp_funding_rate = None,
      smp_open_interest_usd = None, smp_volume_24h_usd = None, smp_level = D,
      smp_score = None, smp_stale_flag = True\<rparr>"

text \<open>
  A catalog of three perps: BTC scheduled at level A and due since 100 ms, ETH scheduled at
  level B and due at 5000 ms, SOL not scheduled yet.
\<close>

definition due_example :: collector where
  "due_example =
     (init_collector 0)
       \<lparr>markets := [perp_market ''BTC'', perp_market ''ETH'', perp_market ''SOL''],
        schedules := [''BTC'' \<mapsto> mk_schedule ''BTC'' A 100 LEVEL_A_INTERVAL_MS,
                      ''ETH'' \<mapsto> mk_schedule ''ETH'' B 5000 LEVEL_B_INTERVAL_MS]\<rparr>"

text \<open>
  The result of a ranking query, newest first: SOL and ETH with the same 24h volume, BTC
  with a larger one, and an older sample of BTC.
\<close>

definition ranking_example :: "MarketSample list" where
  "ranking_example =
     [(empty_sample 4 ''SOL'')\<lparr>smp_volume_24h_usd := Some 50\<rparr>,
      (empty_sample 3 ''BTC'')\<lparr>smp_volume_24h_usd := Some 100\<rparr>,
      (empty_sample 2 ''ETH'')\<lparr>smp_volume_24h_usd := Some 50\<rparr>,
      (empty_sample 1 ''BTC'')\<lparr>smp_volume_24h_usd := Some 10\<rparr>]"

text \<open>The same markets and volumes, with ETH sampled after SOL.\<close>

definition ranking_example_swapped :: "MarketSample list" where
  "ranking_example_swapped =
     [(empty_sample 4 ''ETH'')\<lparr>smp_volume_24h_usd := Some 50\<rparr>,
      (empty_sample 3 ''BTC'')\<lparr>smp_volume_24h_usd := Some 100\<rparr>,
      (empty_sample 2 ''SOL'')\<lparr>smp_volume_24h_usd := Some 50\<rparr>,
      (empty_sample 1 ''BTC'')\<lparr>smp_volume_24h_usd := Some 10\<rparr>]"

section \<open>Level state machine: what a ranking cycle does\<close>

lemmas level_defs = refresh_rankings_def update_levels_with_hysteresis_def hysteresis_step_def
  promotion_branch_def demotion_branch_def direct_branch_def current_level_of_def
  apply_fallback_safety_def fallback_step_def init_schedule_step_def
  assign_level_from_rank_def get_interval_for_level_def mk_schedule_def
  LEVEL_A_INTERVAL_MS_def LEVEL_B_INTERVAL_MS_def LEVEL_C_INTERVAL_MS_def LEVEL_D_INTERVAL_MS_def
  SPREAD_BPS_NO_A_THRESHOLD_def SAFETY_ASSETS_def init_collector_def perp_market_def ranking_of_def

text \<open>
  Claim C1 (direct rank mapping for the non-A levels). The claim says that a ranked market at
  a non-A level that does not promote takes the level of the direct rank mapping, so that a
  level-D market ranked 150 holds level B after the cycle. In the source the mapping sits in
  the \<^verbatim>\<open>else\<close> of \<^verbatim>\<open>if current_level != "A": ... elif current_level == "A": ...\<close>, which no
  level reaches. The cycle below runs \<^verbatim>\<open>_refresh_rankings\<close> on a catalog of one market that
  is scheduled at level D and ranked 150 with a spread of 5 bps: the market still holds D.
\<close>

theorem direct_mapping_not_applied:
  "map_option ms_level
     (schedules
        (refresh_rankings 0 [ranking_of ''XYZ'' 150 (Some 5)]
           ((init_collector 0)\<lparr>markets := [perp_market ''XYZ''],
               schedules := [''XYZ'' \<mapsto> mk_schedule ''XYZ'' D 0 LEVEL_D_INTERVAL_MS]\<rparr>))
        ''XYZ'') = Some D
   \<and> assign_level_from_rank ''XYZ'' 150 (Some 5) = B"
  by (simp add: level_defs)

text \<open>
  Claim C2 (promotion to A after three consecutive eligible cycles, where eligible asks for a
  spread that is present and at most 15 bps). The source counts a cycle as eligible when
  \<^verbatim>\<open>rank <= 100 and (spread_bps is None or spread_bps <= 15)\<close>: a missing spread is
  eligible. Three cycles in which a level-B market is ranked 50 with no spread promote it to
  A, a level that \<^verbatim>\<open>_assign_level_from_rank\<close> refuses for the same rank and spread
  ("Missing spread -> cannot be A").
\<close>

theorem missing_spread_promotes_to_A:
  "map_option ms_level
     (schedules
        (refresh_rankings 0 [ranking_of ''XYZ'' 50 None]
           (refresh_rankings 0 [ranking_of ''XYZ'' 50 None]
              (refresh_rankings 0 [ranking_of ''XYZ'' 50 None]
                 ((init_collector 0)\<lparr>markets := [perp_market ''XYZ''],
                     schedules := [''XYZ'' \<mapsto> mk_schedule ''XYZ'' B 0 LEVEL_B_INTERVAL_MS]\<rparr>))))
        ''XYZ'') = Some A
   \<and> assign_level_from_rank ''XYZ'' 50 None = B"
  by (simp add: level_defs)

text \<open>
  Claim C3 (safety assets hold A or B after every level update pass, also when they have no
  schedule entry). \<^verbatim>\<open>_apply_fallback_safety\<close> only rewrites an existing schedule entry. With
  BTC in the catalog, no schedule yet and rank 350, the pass leaves BTC unscheduled and the
  initialisation loop of \<^verbatim>\<open>_refresh_rankings\<close> then gives it level D; with an empty ranking
  map the pass returns with BTC still unscheduled.
\<close>

theorem unscheduled_safety_asset_not_forced:
  "mi_base (perp_market ''BTC'') \<in> SAFETY_ASSETS
   \<and> map_option ms_level
       (schedules
          (refresh_rankings 0 [ranking_of ''BTC'' 350 None]
             ((init_collector 0)\<lparr>markets := [perp_market ''BTC'']\<rparr>))
          ''BTC'') = Some D
   \<and> schedules
       (refresh_rankings 0 [] ((init_collector 0)\<lparr>markets := [perp_market ''BTC'']\<rparr>))
       ''BTC'' = None"
  by (simp add: level_defs)

subsection \<open>Markets missing from the ranking map\<close>

lemma hysteresis_step_frame:
  assumes "fst e \<noteq> k"
  shows "schedules (fst (hysteresis_step e acc)) k = schedules (fst acc) k"
    and "promotion_counters (fst (hysteresis_step e acc)) k = promotion_counters (fst acc) k"
    and "demotion_counters (fst (hysteresis_step e acc)) k = demotion_counters (fst acc) k"
  using assms
  by (cases e; cases acc;
      simp add: hysteresis_step_def promotion_branch_def demotion_branch_def direct_branch_def
        Let_def split: prod.splits if_splits)+

lemma fold_hysteresis_frame:
  assumes "k \<notin> set (map fst rks)"
  shows "schedules (fst (fold hysteresis_step rks acc)) k = schedules (fst acc) k
       \<and> promotion_counters (fst (fold hysteresis_step rks acc)) k = promotion_counters (fst acc) k
       \<and> demotion_counters (fst (fold hysteresis_step rks acc)) k = demotion_counters (fst acc) k"
  using assms
proof (induction rks arbitrary: acc)
  case Nil
  then show ?case by simp
next
  case (Cons e rks)
  from Cons.prems have ne: "fst e \<noteq> k" and rest: "k \<notin> set (map fst rks)" by auto
  show ?case
    using Cons.IH [OF rest, of "hysteresis_step e acc"] hysteresis_step_frame [OF ne, of acc]
    by simp
qed

text \<open>
  Claim C10 (frame of the level update). A symbol that is not a key of the ranking map
  passed to \<^verbatim>\<open>_update_levels_with_hysteresis\<close> keeps its schedule entry (or its absence),
  its promotion counter and its demotion counter.
\<close>

theorem unranked_market_untouched:
  assumes "k \<notin> set (map fst rks)"
  shows "schedules (update_levels_with_hysteresis now rks st) k = schedules st k
       \<and> promotion_counters (update_levels_with_hysteresis now rks st) k = promotion_counters st k
       \<and> demotion_counters (update_levels_with_hysteresis now rks st) k = demotion_counters st k"
proof -
  define st0 where "st0 = (if now - last_window_start st \<ge> 60
                 then st\<lparr>last_promotions := [], last_demotions := [], last_window_start := now\<rparr>
                 else st)"
  have base: "schedules st0 k = schedules st k" "promotion_counters st0 k = promotion_counters st k"
    "demotion_counters st0 k = demotion_counters st k"
    by (simp_all add: st0_def)
  obtain st1 promos demos where f: "fold hysteresis_step rks (st0, [], []) = (st1, promos, demos)"
    by (cases "fold hysteresis_step rks (st0, [], [])") auto
  have "schedules st1 k = schedules st0 k \<and> promotion_counters st1 k = promotion_counters st0 k
      \<and> demotion_counters st1 k = demotion_counters st0 k"
    using fold_hysteresis_frame [OF assms, of "(st0, [], [])"] f by simp
  moreover have "update_levels_with_hysteresis now rks st =
      st1\<lparr>last_promotions := last_promotions st1 @ promos,
              last_demotions := last_demotions st1 @ demos,
              promotions_count := promotions_count st1 + int (length promos),
              demotions_count := demotions_count st1 + int (length demos)\<rparr>"
    unfolding update_levels_with_hysteresis_def st0_def [symmetric] Let_def f by simp
  ultimately show ?thesis using base by simp
qed

theorem unranked_market_untouched_witness:
  "''ETH'' \<notin> set (map fst [ranking_of ''BTC'' 1 (Some 5)])
   \<and> promotion_counters
       (update_levels_with_hysteresis 0 [ranking_of ''BTC'' 1 (Some 5)]
          ((init_collector 0)\<lparr>promotion_counters := (\<lambda>k. 0)(''ETH'' := 2)\<rparr>)) ''ETH'' = 2"
  using unranked_market_untouched [of "''ETH''" "[ranking_of ''BTC'' 1 (Some 5)]" 0
      "(init_collector 0)\<lparr>promotion_counters := (\<lambda>k. 0)(''ETH'' := 2)\<rparr>"]
  by (simp add: ranking_of_def)

section \<open>Sampler: the spread acceptance filter\<close>

text \<open>
  Claim C6 (spread filter of \<^verbatim>\<open>collect_sample\<close>). When the spread computed from the
  snapshot is above 30 bps, \<^verbatim>\<open>collect_sample\<close> returns \<^verbatim>\<open>None\<close> and adds one to
  \<^verbatim>\<open>skipped_spread_gt_30\<close>; when it is at most 30 bps, the sample is returned, carrying
  that spread, and the collector is unchanged.
\<close>

theorem spread_filter:
  assumes "computed_spread_bps bk = Some s"
  shows "(s > 30 \<longrightarrow>
           collect_sample ts_ms bk market st =
             (None, st\<lparr>skipped_spread_gt_30 := skipped_spread_gt_30 st + 1\<rparr>))
       \<and> (s \<le> 30 \<longrightarrow>
           (\<exists>sample. collect_sample ts_ms bk market st = (Some sample, st)
              \<and> smp_spread_bps sample = Some s
              \<and> smp_symbol_raw sample = mi_symbol_raw market))"
  using assms
  by (cases "book_prices bk")
     (auto simp: computed_spread_bps_def collect_sample_def SPREAD_BPS_IGNORE_THRESHOLD_def Let_def)

lemma spread_1004: "computed_spread_bps (Best (Some 1000) (Some 1004)) = Some (20000 / 501)"
  by (simp add: computed_spread_bps_def book_prices_def truthy_def Let_def)

lemma spread_1003: "computed_spread_bps (Best (Some 1000) (Some 1003)) = Some (60000 / 2003)"
  by (simp add: computed_spread_bps_def book_prices_def truthy_def Let_def)

theorem spread_filter_witness:
  "computed_spread_bps (Best (Some 1000) (Some 1004)) = Some (20000 / 501)
   \<and> (20000 / 501 :: real) > 30
   \<and> collect_sample 7 (Best (Some 1000) (Some 1004)) (perp_market ''BTC'') (init_collector 0)
       = (None, (init_collector 0)\<lparr>skipped_spread_gt_30 := 1\<rparr>)
   \<and> computed_spread_bps (Best (Some 1000) (Some 1003)) = Some (60000 / 2003)
   \<and> (60000 / 2003 :: real) \<le> 30
   \<and> (\<exists>sample. collect_sample 7 (Best (Some 1000) (Some 1003)) (perp_market ''BTC'')
                   (init_collector 0) = (Some sample, init_collector 0)
         \<and> smp_spread_bps sample = Some (60000 / 2003))"
  using spread_filter [OF spread_1004, of 7 "perp_market ''BTC''" "init_collector 0"]
        spread_filter [OF spread_1003, of 7 "perp_market ''BTC''" "init_collector 0"]
        spread_1004 spread_1003
  by (auto simp: init_collector_def)

section \<open>Buffer: a failed flush\<close>

lemma buffer_fold_add: "buffer (fold add_to_buffer xs st) = buffer st @ xs"
  by (induction xs arbitrary: st) (simp_all add: add_to_buffer_def Let_def)

text \<open>
  Claim C7 (re-queue on a failed flush). When the commit of a flush fails, nothing is
  persisted and the swapped-out batch is back in the live buffer, behind the samples that
  arrived meanwhile: the buffer holds exactly the old batch and the arrivals, each once.
  A following flush whose commit succeeds persists exactly that buffer and leaves in the
  buffer only what arrived during it.
\<close>

theorem flush_failure_requeues:
  assumes "buffer st \<noteq> []"
  shows "\<exists>st1. flush_buffer False arrivals (st, store) = (0, st1, store)
           \<and> buffer st1 = arrivals @ buffer st
           \<and> mset (buffer st1) = mset (buffer st) + mset arrivals
           \<and> (\<exists>st2. flush_buffer True later (st1, store) =
                  (int (length (buffer st1)), st2, store @ buffer st1)
                \<and> buffer st2 = later)"
  using assms
  by (simp add: flush_buffer_def Let_def buffer_fold_add record_insert_def)

theorem flush_failure_requeues_witness:
  "buffer ((init_collector 0)\<lparr>buffer := [empty_sample 1 ''BTC'']\<rparr>) \<noteq> []
   \<and> (\<exists>st1. flush_buffer False [empty_sample 2 ''ETH'']
               ((init_collector 0)\<lparr>buffer := [empty_sample 1 ''BTC'']\<rparr>, []) = (0, st1, [])
          \<and> buffer st1 = [empty_sample 2 ''ETH'', empty_sample 1 ''BTC'']
          \<and> (\<exists>st2. flush_buffer True [] (st1, []) =
                 (2, st2, [empty_sample 2 ''ETH'', empty_sample 1 ''BTC''])
               \<and> buffer st2 = []))"
  using flush_failure_requeues [of "(init_collector 0)\<lparr>buffer := [empty_sample 1 ''BTC'']\<rparr>"
          "[empty_sample 2 ''ETH'']" "[]" "[]"]
  by auto

section \<open>Reads under storage contention\<close>

lemma is_locked_examples:
  "is_locked ''database is locked''"
  "is_locked ''(sqlite3.OperationalError) database table is LOCKED''"
  "\<not> is_locked ''disk I/O error''"
  by (simp_all add: is_locked_def lower_def lower_char_def Let_def)

text \<open>
  Claim C8 as stated (every exposed read, the 24h row count included, retries a busy or
  locked store with the backoff 0.2 s, 0.5 s, 1.0 s over 3 attempts before the failure
  surfaces) fails on the code. \<^verbatim>\<open>get_db_rows_24h\<close> runs its query once and turns any
  exception into the count 0: with a store that is locked at the first execution and would
  answer 42 at the second it returns 0, where \<^verbatim>\<open>_retry_on_lock\<close> returns 42. And
  \<^verbatim>\<open>_retry_on_lock\<close> with its defaults sleeps 0.2 s and 0.5 s only: the third locked
  attempt raises at once, so the delay 1.0 s is never used.
\<close>

theorem reads_retry_counterexample:
  "get_db_rows_24h (\<lambda>k. if k = 0 then Err ''database is locked'' else Ok 42) = 0
   \<and> retry_on_lock (\<lambda>k. if k = 0 then Err ''database is locked'' else Ok (42::int))
        default_max_retries default_delays = (Returned 42, [2 / 10])
   \<and> retry_on_lock (\<lambda>k. (Err ''database is locked'' :: int outcome))
        default_max_retries default_delays = (Raises ''database is locked'', [2 / 10, 5 / 10])"
  by (simp add: get_db_rows_24h_def retry_on_lock_def default_max_retries_def default_delays_def
        is_locked_def lower_def lower_char_def Let_def)

text \<open>
  Claim C8, amended. A read run under \<^verbatim>\<open>_retry_on_lock\<close> with the default arguments (the
  reads of the snapshot export) makes at most 3 attempts: an error whose lower-cased text
  contains "locked" is retried after a sleep of 0.2 s (first attempt) and 0.5 s (second
  attempt), the error of the third attempt is raised, and an error without "locked" is
  raised at once, without retry. The 24h row count of the collector is not retried: it
  runs the query once and returns 0 on any error.
\<close>

theorem retry_on_lock_default:
  "retry_on_lock func default_max_retries default_delays =
     (case func 0 of
        Ok v \<Rightarrow> (Returned v, [])
      | Err e0 \<Rightarrow>
          if \<not> is_locked e0 then (Raises e0, [])
          else
            (case func 1 of
               Ok v \<Rightarrow> (Returned v, [2 / 10])
             | Err e1 \<Rightarrow>
                 if \<not> is_locked e1 then (Raises e1, [2 / 10])
                 else
                   (case func 2 of
                      Ok v \<Rightarrow> (Returned v, [2 / 10, 5 / 10])
                    | Err e2 \<Rightarrow> (Raises e2, [2 / 10, 5 / 10]))))
   \<and> get_db_rows_24h query = (case query 0 of Ok n \<Rightarrow> n | Err e \<Rightarrow> 0)"
  by (simp add: retry_on_lock_def default_max_retries_def default_delays_def Let_def
        get_db_rows_24h_def numeral_2_eq_2 split: outcome.splits)

theorem retry_on_lock_default_witness:
  "retry_on_lock (\<lambda>k. if k < 2 then Err ''database is locked'' else Ok (7::int))
     default_max_retries default_delays = (Returned 7, [2 / 10, 5 / 10])
   \<and> retry_on_lock (\<lambda>k. if k < 1 then Err ''database is locked'' else Err ''disk I/O error'')
     default_max_retries default_delays = (Raises ''disk I/O error'' :: int retry_result, [2 / 10])
   \<and> get_db_rows_24h (\<lambda>k. Err ''disk I/O error'') = 0"
  using retry_on_lock_default
          [of "\<lambda>k. if k < 2 then Err ''database is locked'' else Ok (7::int)"
              "\<lambda>k. Err ''disk I/O error''"]
        retry_on_lock_default
          [of "\<lambda>k. if k < 1 then Err ''database is locked''
                    else (Err ''disk I/O error'' :: int outcome)"
              "\<lambda>k. Err ''disk I/O error''"]
        is_locked_examples
  by simp

section \<open>Ranking engine: percentile rank\<close>

lemma length_filter_sort: "length (filter P (sort xs)) = length (filter P xs)"
proof -
  have "mset (filter P (sort xs)) = mset (filter P xs)" by simp
  then show ?thesis by (metis size_mset)
qed

text \<open>
  Claim C4 as stated ends with: a value strictly greater than every other element of its
  set has percentile 1.0. With the mid-rank formula the value itself counts for one half
  only: in \<open>[1, 2, 3]\<close> the value 3 has percentile \<open>(2 + 1/2) / 3 = 5/6\<close>.
\<close>

theorem percentile_counterexample:
  "3 \<in> set [1, 2, 3 :: real] \<and> (1::real) < 3 \<and> (2::real) < 3
   \<and> calculate_percentile_rank 3 [1, 2, 3] = 5 / 6
   \<and> calculate_percentile_rank 3 [1, 2, 3] \<noteq> 1"
  by (simp add: calculate_percentile_rank_def Let_def length_filter_sort)

text \<open>
  Claim C4, amended. For a value \<open>v\<close> that occurs in the non-empty list \<open>S\<close> of metric
  values, the percentile is \<open>(count(s < v) + count(s = v) / 2) / |S|\<close>; it is a function of
  the value, so tied values have the same percentile; and when \<open>v\<close> is strictly greater
  than every other element the percentile is \<open>1 - count(s = v) / (2 |S|)\<close>, which is
  strictly below 1.0 (\<open>(|S| - 1/2) / |S|\<close> when \<open>v\<close> occurs once).
  The arithmetic is that of the reals.
\<close>

theorem percentile_mid_rank:
  assumes "v \<in> set S"
  shows "calculate_percentile_rank v S =
           (real (length (filter (\<lambda>s. s < v) S)) + real (length (filter (\<lambda>s. s = v) S)) / 2)
             / real (length S)
       \<and> ((\<forall>s \<in> set S. s \<noteq> v \<longrightarrow> s < v) \<longrightarrow>
            calculate_percentile_rank v S
              = 1 - real (length (filter (\<lambda>s. s = v) S)) / (2 * real (length S))
            \<and> calculate_percentile_rank v S < 1)"
proof -
  from assms have ne: "S \<noteq> []" by auto
  then have N: "0 < real (length S)" by simp
  have eq: "calculate_percentile_rank v S =
           (real (length (filter (\<lambda>s. s < v) S)) + real (length (filter (\<lambda>s. s = v) S)) / 2)
             / real (length S)"
    using ne by (simp add: calculate_percentile_rank_def Let_def length_filter_sort)
  have kpos: "0 < length (filter (\<lambda>s. s = v) S)"
    using assms by (simp add: filter_empty_conv)
  {
    assume mx: "\<forall>s \<in> set S. s \<noteq> v \<longrightarrow> s < v"
    have "filter (\<lambda>s. \<not> s < v) S = filter (\<lambda>s. s = v) S"
      using mx by (intro filter_cong) auto
    then have "length (filter (\<lambda>s. s < v) S) + length (filter (\<lambda>s. s = v) S) = length S"
      using sum_length_filter_compl [of "\<lambda>s. s < v" S] by simp
    then have b: "real (length (filter (\<lambda>s. s < v) S))
                = real (length S) - real (length (filter (\<lambda>s. s = v) S))"
      by linarith
    have v1: "calculate_percentile_rank v S
              = 1 - real (length (filter (\<lambda>s. s = v) S)) / (2 * real (length S))"
      unfolding eq b using N by (simp add: field_simps)
    have "0 < real (length (filter (\<lambda>s. s = v) S)) / (2 * real (length S))"
      using kpos N by simp
    with v1 have "calculate_percentile_rank v S
              = 1 - real (length (filter (\<lambda>s. s = v) S)) / (2 * real (length S))
            \<and> calculate_percentile_rank v S < 1" by linarith
  }
  with eq show ?thesis by blast
qed

theorem percentile_mid_rank_witness:
  "(4::real) \<in> set [1, 4, 2, 2] \<and> (1::real) < 4 \<and> (2::real) < 4
   \<and> calculate_percentile_rank 4 [1, 4, 2, 2] = 7 / 8
   \<and> calculate_percentile_rank 4 [1, 4, 2, 2] < 1"
  using percentile_mid_rank [of 4 "[1, 4, 2, 2]"] by simp

section \<open>Scheduler: the markets due at a tick\<close>

lemma due_step_frame:
  assumes "mi_symbol_raw m \<noteq> k"
  shows "schedules (snd (due_step now m (due, st))) k = schedules st k"
  using assms by (simp add: due_step_def split: option.splits)

lemma fold_due_markets:
  assumes "distinct (map mi_symbol_raw ms)"
  shows "fst (fold (due_step now) ms (due, st)) =
           due @ filter (\<lambda>m. case schedules st (mi_symbol_raw m) of None \<Rightarrow> True
                              | Some s \<Rightarrow> now \<ge> ms_next_due_ms s) ms"
  using assms
proof (induction ms arbitrary: due st)
  case Nil
  then show ?case by simp
next
  case (Cons m ms)
  obtain due1 st1 where step: "due_step now m (due, st) = (due1, st1)"
    by (cases "due_step now m (due, st)") auto
  have d: "distinct (map mi_symbol_raw ms)" using Cons.prems by simp
  have same: "\<And>x. x \<in> set ms \<Longrightarrow> schedules st1 (mi_symbol_raw x) = schedules st (mi_symbol_raw x)"
  proof -
    fix x assume "x \<in> set ms"
    then have "mi_symbol_raw m \<noteq> mi_symbol_raw x" using Cons.prems by auto
    from due_step_frame [OF this, of now due st] step show
      "schedules st1 (mi_symbol_raw x) = schedules st (mi_symbol_raw x)" by simp
  qed
  have flt: "filter (\<lambda>m. case schedules st1 (mi_symbol_raw m) of None \<Rightarrow> True
                              | Some s \<Rightarrow> now \<ge> ms_next_due_ms s) ms
           = filter (\<lambda>m. case schedules st (mi_symbol_raw m) of None \<Rightarrow> True
                              | Some s \<Rightarrow> now \<ge> ms_next_due_ms s) ms"
    by (rule filter_cong) (simp_all add: same)
  have d1: "due1 = due @ (if (case schedules st (mi_symbol_raw m) of None \<Rightarrow> True
                              | Some s \<Rightarrow> now \<ge> ms_next_due_ms s) then [m] else [])"
    using step by (auto simp: due_step_def split: option.splits if_splits)
  show ?case
    using Cons.IH [OF d, of due1 st1] step flt d1 by simp
qed

lemma fold_due_schedules:
  "schedules (snd (fold (due_step now) ms (due, st))) k =
     (case schedules st k of
        None \<Rightarrow> None
      | Some s \<Rightarrow>
          if k \<in> set (map mi_symbol_raw ms) \<and> now \<ge> ms_next_due_ms s
          then Some (s\<lparr>ms_next_due_ms := now + ms_interval_ms s\<rparr>)
          else Some s)"
proof (induction ms arbitrary: due st)
  case Nil
  then show ?case by (simp split: option.splits)
next
  case (Cons m ms)
  obtain due1 st1 where step: "due_step now m (due, st) = (due1, st1)"
    by (cases "due_step now m (due, st)") auto
  have s1: "schedules st1 k =
      (case schedules st k of None \<Rightarrow> None
       | Some s \<Rightarrow> if k = mi_symbol_raw m \<and> now \<ge> ms_next_due_ms s
                    then Some (s\<lparr>ms_next_due_ms := now + ms_interval_ms s\<rparr>) else Some s)"
    using step by (auto simp: due_step_def split: option.splits if_splits)
  show ?case
    using Cons.IH [of due1 st1] step s1
    by (auto split: option.splits if_splits)
qed

text \<open>
  Claim C9 (due-markets selection). In a catalog whose markets have pairwise different
  \<^verbatim>\<open>symbol_raw\<close> (it is the unique logical id of a market), for every \<open>now_ms\<close>:
  a market is returned iff it is in the catalog and either has no schedule or
  \<open>now_ms \<ge> next_due_ms\<close>; the schedule of every returned scheduled market has
  \<open>next_due_ms = now_ms + interval_ms\<close> afterwards and is otherwise as before; the
  schedule of every symbol that is not returned is unchanged; and a symbol without a
  schedule still has none.
\<close>

theorem due_markets_selection:
  assumes "distinct (map mi_symbol_raw (markets st))"
  shows "(\<forall>m. m \<in> set (fst (get_markets_due_for_sampling now_ms st)) \<longleftrightarrow>
            m \<in> set (markets st)
            \<and> (schedules st (mi_symbol_raw m) = None
               \<or> (\<exists>s. schedules st (mi_symbol_raw m) = Some s \<and> now_ms \<ge> ms_next_due_ms s)))
       \<and> (\<forall>m s. m \<in> set (fst (get_markets_due_for_sampling now_ms st))
              \<and> schedules st (mi_symbol_raw m) = Some s \<longrightarrow>
            schedules (snd (get_markets_due_for_sampling now_ms st)) (mi_symbol_raw m)
              = Some (s\<lparr>ms_next_due_ms := now_ms + ms_interval_ms s\<rparr>))
       \<and> (\<forall>k. k \<notin> set (map mi_symbol_raw (fst (get_markets_due_for_sampling now_ms st))) \<longrightarrow>
            schedules (snd (get_markets_due_for_sampling now_ms st)) k = schedules st k)
       \<and> (\<forall>k. schedules st k = None \<longrightarrow>
            schedules (snd (get_markets_due_for_sampling now_ms st)) k = None)"
proof -
  let ?due = "\<lambda>m. case schedules st (mi_symbol_raw m) of None \<Rightarrow> True
                  | Some s \<Rightarrow> now_ms \<ge> ms_next_due_ms s"
  have sel: "fst (get_markets_due_for_sampling now_ms st) = filter ?due (markets st)"
    using fold_due_markets [OF assms, of now_ms "[]" st]
    by (simp add: get_markets_due_for_sampling_def)
  have sch: "\<And>k. schedules (snd (get_markets_due_for_sampling now_ms st)) k =
     (case schedules st k of
        None \<Rightarrow> None
      | Some s \<Rightarrow>
          if k \<in> set (map mi_symbol_raw (markets st)) \<and> now_ms \<ge> ms_next_due_ms s
          then Some (s\<lparr>ms_next_due_ms := now_ms + ms_interval_ms s\<rparr>)
          else Some s)"
    using fold_due_schedules [of now_ms "markets st" "[]" st]
    by (simp add: get_markets_due_for_sampling_def)
  have p1: "\<forall>m. m \<in> set (fst (get_markets_due_for_sampling now_ms st)) \<longleftrightarrow>
            m \<in> set (markets st)
            \<and> (schedules st (mi_symbol_raw m) = None
               \<or> (\<exists>s. schedules st (mi_symbol_raw m) = Some s \<and> now_ms \<ge> ms_next_due_ms s))"
    unfolding sel by (auto split: option.splits)
  have p2: "\<forall>m s. m \<in> set (fst (get_markets_due_for_sampling now_ms st))
              \<and> schedules st (mi_symbol_raw m) = Some s \<longrightarrow>
            schedules (snd (get_markets_due_for_sampling now_ms st)) (mi_symbol_raw m)
              = Some (s\<lparr>ms_next_due_ms := now_ms + ms_interval_ms s\<rparr>)"
    unfolding sel sch by (auto split: option.splits)
  have p3: "\<forall>k. k \<notin> set (map mi_symbol_raw (fst (get_markets_due_for_sampling now_ms st))) \<longrightarrow>
            schedules (snd (get_markets_due_for_sampling now_ms st)) k = schedules st k"
    unfolding sel sch by (force split: option.splits)
  have p4: "\<forall>k. schedules st k = None \<longrightarrow>
            schedules (snd (get_markets_due_for_sampling now_ms st)) k = None"
    unfolding sch by simp
  from p1 p2 p3 p4 show ?thesis by blast
qed

theorem due_markets_selection_witness:
  "distinct (map mi_symbol_raw (markets due_example))
   \<and> perp_market ''BTC'' \<in> set (fst (get_markets_due_for_sampling 1000 due_example))
   \<and> perp_market ''ETH'' \<notin> set (fst (get_markets_due_for_sampling 1000 due_example))
   \<and> perp_market ''SOL'' \<in> set (fst (get_markets_due_for_sampling 1000 due_example))
   \<and> schedules (snd (get_markets_due_for_sampling 1000 due_example)) ''BTC''
       = Some (mk_schedule ''BTC'' A 1250 250)
   \<and> schedules (snd (get_markets_due_for_sampling 1000 due_example)) ''SOL'' = None"
proof -
  have d: "distinct (map mi_symbol_raw (markets due_example))"
    by (simp add: due_example_def init_collector_def perp_market_def)
  have mk: "markets due_example = [perp_market ''BTC'', perp_market ''ETH'', perp_market ''SOL'']"
    by (simp add: due_example_def init_collector_def)
  have sB: "schedules due_example (mi_symbol_raw (perp_market ''BTC''))
              = Some (mk_schedule ''BTC'' A 100 250)"
    and sE: "schedules due_example (mi_symbol_raw (perp_market ''ETH''))
              = Some (mk_schedule ''ETH'' B 5000 2000)"
    and sS: "schedules due_example (mi_symbol_raw (perp_market ''SOL'')) = None"
    by (simp_all add: due_example_def init_collector_def perp_market_def
          LEVEL_A_INTERVAL_MS_def LEVEL_B_INTERVAL_MS_def)
  note T = due_markets_selection [OF d, of 1000]
  from T have sel: "\<And>m. m \<in> set (fst (get_markets_due_for_sampling 1000 due_example)) \<longleftrightarrow>
            m \<in> set (markets due_example)
            \<and> (schedules due_example (mi_symbol_raw m) = None
               \<or> (\<exists>s. schedules due_example (mi_symbol_raw m) = Some s
                      \<and> 1000 \<ge> ms_next_due_ms s))"
    by blast
  have b: "perp_market ''BTC'' \<in> set (fst (get_markets_due_for_sampling 1000 due_example))"
    unfolding sel mk sB by (simp add: mk_schedule_def)
  have e: "perp_market ''ETH'' \<notin> set (fst (get_markets_due_for_sampling 1000 due_example))"
    unfolding sel mk sE by (simp add: mk_schedule_def)
  have s: "perp_market ''SOL'' \<in> set (fst (get_markets_due_for_sampling 1000 due_example))"
    unfolding sel mk sS by simp
  from T b sB have
    "schedules (snd (get_markets_due_for_sampling 1000 due_example))
       (mi_symbol_raw (perp_market ''BTC''))
     = Some ((mk_schedule ''BTC'' A 100 250)
               \<lparr>ms_next_due_ms := 1000 + ms_interval_ms (mk_schedule ''BTC'' A 100 250)\<rparr>)"
    by blast
  then have b2: "schedules (snd (get_markets_due_for_sampling 1000 due_example)) ''BTC''
       = Some (mk_schedule ''BTC'' A 1250 250)"
    by (simp add: perp_market_def mk_schedule_def)
  from T sS have
    "schedules (snd (get_markets_due_for_sampling 1000 due_example))
       (mi_symbol_raw (perp_market ''SOL'')) = None"
    by blast
  then have s2: "schedules (snd (get_markets_due_for_sampling 1000 due_example)) ''SOL'' = None"
    by (simp add: perp_market_def)
  from d b e s b2 s2 show ?thesis by blast
qed

section \<open>Ranking engine: dense ranks from a stable sort\<close>

subsection \<open>Positions in a list without repetition\<close>

lemma first_index_Cons:
  "first_index (x # xs) a = (if x = a then 0 else Suc (first_index xs a))"
  by (simp add: first_index_def)

lemma first_index_nth:
  "distinct xs \<Longrightarrow> j < length xs \<Longrightarrow> first_index xs (xs ! j) = j"
proof (induction xs arbitrary: j)
  case Nil
  then show ?case by simp
next
  case (Cons x xs)
  show ?case
  proof (cases j)
    case 0
    then show ?thesis by (simp add: first_index_Cons)
  next
    case (Suc j')
    with Cons.prems have "xs ! j' \<in> set xs" by simp
    with Cons.prems have "x \<noteq> xs ! j'" by auto
    with Suc Cons show ?thesis by (simp add: first_index_Cons)
  qed
qed

lemma first_index_less: "a \<in> set xs \<Longrightarrow> first_index xs a < length xs"
  by (induction xs) (auto simp: first_index_Cons)

lemma nth_first_index: "a \<in> set xs \<Longrightarrow> xs ! first_index xs a = a"
  by (induction xs) (auto simp: first_index_Cons)

lemma map_first_index_self:
  assumes "distinct xs"
  shows "map (first_index xs) xs = [0..<length xs]"
  by (rule nth_equalityI) (simp_all add: first_index_nth assms)

lemma mset_first_index_perm:
  assumes "distinct ys" "mset xs = mset ys"
  shows "mset (map (first_index ys) xs) = mset [0..<length ys]"
proof -
  have "mset (map (first_index ys) xs) = image_mset (first_index ys) (mset xs)" by simp
  also have "\<dots> = mset (map (first_index ys) ys)" using assms(2) by simp
  finally show ?thesis using map_first_index_self [OF assms(1)] by simp
qed

text \<open>
  Inserting by key keeps a list sorted for any order that refines the order of the keys,
  as long as the new element may stand before the elements of equal key.
\<close>

lemma insort_key_sorted_wrt:
  fixes f :: "'a \<Rightarrow> 'b::linorder"
  assumes "sorted_wrt R ys"
    and "\<And>y. y \<in> set ys \<Longrightarrow> f x \<le> f y \<Longrightarrow> R x y"
    and "\<And>y. y \<in> set ys \<Longrightarrow> f y < f x \<Longrightarrow> R y x"
    and "\<And>a b. a \<in> set ys \<Longrightarrow> b \<in> set ys \<Longrightarrow> R a b \<Longrightarrow> f a \<le> f b"
  shows "sorted_wrt R (insort_key f x ys)"
  using assms
proof (induction ys)
  case Nil
  then show ?case by simp
next
  case (Cons y ys)
  show ?case
  proof (cases "f x \<le> f y")
    case True
    have "\<And>z. z \<in> set (y # ys) \<Longrightarrow> R x z"
    proof -
      fix z assume z: "z \<in> set (y # ys)"
      have "f y \<le> f z"
      proof (cases "z = y")
        case True then show ?thesis by simp
      next
        case False
        with z have "z \<in> set ys" by simp
        with Cons.prems(1) have "R y z" by simp
        with Cons.prems(4) [of y z] z show ?thesis by simp
      qed
      with True have "f x \<le> f z" by simp
      with Cons.prems(2) z show "R x z" by blast
    qed
    with True Cons.prems(1) show ?thesis by simp
  next
    case False
    then have lt: "f y < f x" by simp
    have ih: "sorted_wrt R (insort_key f x ys)"
      using Cons.prems by (intro Cons.IH) auto
    have "R y x" using Cons.prems(3) lt by simp
    moreover have "\<forall>z \<in> set ys. R y z" using Cons.prems(1) by simp
    ultimately show ?thesis using False ih by (simp add: set_insort_key)
  qed
qed

lemma sort_key_stable_order:
  fixes f :: "'a \<Rightarrow> 'b::linorder"
  assumes "distinct xs"
  shows "sorted_wrt (\<lambda>a b. f a < f b \<or> (f a = f b \<and> first_index xs a < first_index xs b))
           (sort_key f xs)"
  using assms
proof (induction xs)
  case Nil
  then show ?case by simp
next
  case (Cons x xs)
  let ?R = "\<lambda>l a b. f a < f b \<or> (f a = f b \<and> first_index l a < first_index l b)"
  from Cons have ih: "sorted_wrt (?R xs) (sort_key f xs)" and nx: "x \<notin> set xs" by simp_all
  have step: "sorted_wrt (?R (x # xs)) (sort_key f xs)"
  proof (rule sorted_wrt_mono_rel [OF _ ih])
    fix a b assume "a \<in> set (sort_key f xs)" "b \<in> set (sort_key f xs)" "?R xs a b"
    with nx show "?R (x # xs) a b" by (auto simp: first_index_Cons)
  qed
  have "sorted_wrt (?R (x # xs)) (insort_key f x (sort_key f xs))"
  proof (rule insort_key_sorted_wrt [OF step])
    fix y assume "y \<in> set (sort_key f xs)" "f x \<le> f y"
    with nx show "?R (x # xs) x y" by (auto simp: first_index_Cons)
  next
    fix y assume "y \<in> set (sort_key f xs)" "f y < f x"
    then show "?R (x # xs) y x" by simp
  next
    fix a b assume "?R (x # xs) a b"
    then show "f a \<le> f b" by auto
  qed
  then show ?case by simp
qed

subsection \<open>The rank assignment loop\<close>

lemma set_rank_keys: "map fst (set_rank k n rks) = map fst rks"
  by (induction rks) (auto simp: set_rank_def)

lemma assign_rank_step_eq: "assign_rank_step (n, k, sc) rks = set_rank k (int n) rks"
proof (cases "k \<in> set (map fst rks)")
  case True
  then show ?thesis by (simp add: assign_rank_step_def)
next
  case False
  then have "set_rank k (int n) rks = rks"
    by (induction rks) (auto simp: set_rank_def)
  with False show ?thesis by (simp add: assign_rank_step_def)
qed

lemma fold_assign_rank:
  assumes "distinct (map fst ys)"
  shows "fold assign_rank_step (enumerate n ys) rks =
           map (\<lambda>(k, r). if k \<in> set (map fst ys)
                          then (k, r\<lparr>mr_rank := int (n + first_index (map fst ys) k)\<rparr>)
                          else (k, r)) rks"
  using assms
proof (induction ys arbitrary: n rks)
  case Nil
  then show ?case by simp
next
  case (Cons y ys)
  obtain ky sy where y: "y = (ky, sy)" by (cases y)
  from Cons.prems y have nk: "ky \<notin> set (map fst ys)" and d: "distinct (map fst ys)" by auto
  have "fold assign_rank_step (enumerate n (y # ys)) rks
        = fold assign_rank_step (enumerate (Suc n) ys) (set_rank ky (int n) rks)"
    by (simp add: y assign_rank_step_eq)
  also have "\<dots> = map (\<lambda>(k, r). if k \<in> set (map fst ys)
                          then (k, r\<lparr>mr_rank := int (Suc n + first_index (map fst ys) k)\<rparr>)
                          else (k, r)) (set_rank ky (int n) rks)"
    by (rule Cons.IH [OF d])
  also have "\<dots> = map (\<lambda>(k, r). if k \<in> set (map fst (y # ys))
                          then (k, r\<lparr>mr_rank := int (n + first_index (map fst (y # ys)) k)\<rparr>)
                          else (k, r)) rks"
    using nk by (auto simp: set_rank_def y first_index_Cons)
  finally show ?case .
qed

lemma sorted_position:
  fixes xs :: "(string \<times> real) list"
  assumes d: "distinct (map fst xs)" and j: "j < length xs"
  shows "first_index (map fst (sort_key f xs)) (fst (xs ! j)) < length xs
       \<and> sort_key f xs ! first_index (map fst (sort_key f xs)) (fst (xs ! j)) = xs ! j"
proof -
  let ?ss = "sort_key f xs"
  let ?p = "first_index (map fst ?ss) (fst (xs ! j))"
  have mem: "fst (xs ! j) \<in> set (map fst ?ss)" using j by simp
  have p: "?p < length xs" using first_index_less [OF mem] by simp
  have "map fst ?ss ! ?p = fst (xs ! j)" by (rule nth_first_index [OF mem])
  with p have k: "fst (?ss ! ?p) = fst (xs ! j)" by simp
  have "?ss ! ?p \<in> set ?ss" using p by (intro nth_mem) simp
  then have a: "?ss ! ?p \<in> set xs" by simp
  have b: "xs ! j \<in> set xs" using j by simp
  have "inj_on fst (set xs)" using d by (simp add: distinct_map)
  with a b k have "?ss ! ?p = xs ! j" by (auto dest: inj_onD)
  with p show ?thesis by simp
qed

lemma stable_desc_positions:
  fixes xs :: "(string \<times> real) list"
  assumes d: "distinct (map fst xs)" and i: "i < length xs" and j: "j < length xs"
  shows "first_index (map fst (sort_scores_desc xs)) (fst (xs ! i))
           < first_index (map fst (sort_scores_desc xs)) (fst (xs ! j))
         \<Longrightarrow> snd (xs ! i) \<ge> snd (xs ! j)"
    and "i < j \<Longrightarrow> snd (xs ! i) = snd (xs ! j) \<Longrightarrow>
         first_index (map fst (sort_scores_desc xs)) (fst (xs ! i))
           < first_index (map fst (sort_scores_desc xs)) (fst (xs ! j))"
proof -
  let ?f = "\<lambda>x :: string \<times> real. - snd x"
  let ?ss = "sort_key ?f xs"
  let ?p = "\<lambda>j. first_index (map fst ?ss) (fst (xs ! j))"
  let ?R = "\<lambda>a b. ?f a < ?f b \<or> (?f a = ?f b \<and> first_index xs a < first_index xs b)"
  have dx: "distinct xs" using d by (simp add: distinct_map)
  have S: "sorted_wrt ?R ?ss" by (rule sort_key_stable_order [OF dx])
  have pi: "?p i < length xs" "?ss ! ?p i = xs ! i" using sorted_position [OF d i, of ?f] by simp_all
  have pj: "?p j < length xs" "?ss ! ?p j = xs ! j" using sorted_position [OF d j, of ?f] by simp_all
  {
    assume "?p i < ?p j"
    with S pj(1) have "?R (?ss ! ?p i) (?ss ! ?p j)" by (intro sorted_wrt_nth_less) simp_all
    then have "snd (xs ! i) \<ge> snd (xs ! j)" unfolding pi(2) pj(2) by auto
  }
  then show "first_index (map fst (sort_scores_desc xs)) (fst (xs ! i))
           < first_index (map fst (sort_scores_desc xs)) (fst (xs ! j))
         \<Longrightarrow> snd (xs ! i) \<ge> snd (xs ! j)"
    by (simp add: sort_scores_desc_def)
  {
    assume ij: "i < j" and eq: "snd (xs ! i) = snd (xs ! j)"
    have ne: "xs ! i \<noteq> xs ! j" using dx i j ij by (simp add: nth_eq_iff_index_eq)
    then have "?p i \<noteq> ?p j" using pi(2) pj(2) by metis
    moreover have "\<not> ?p j < ?p i"
    proof
      assume "?p j < ?p i"
      with S pi(1) have "?R (?ss ! ?p j) (?ss ! ?p i)" by (intro sorted_wrt_nth_less) simp_all
      then have "first_index xs (xs ! j) < first_index xs (xs ! i)"
        unfolding pi(2) pj(2) using eq by auto
      then have "j < i" using first_index_nth [OF dx i] first_index_nth [OF dx j] by simp
      with ij show False by simp
    qed
    ultimately have "?p i < ?p j" by linarith
  }
  then show "i < j \<Longrightarrow> snd (xs ! i) = snd (xs ! j) \<Longrightarrow>
         first_index (map fst (sort_scores_desc xs)) (fst (xs ! i))
           < first_index (map fst (sort_scores_desc xs)) (fst (xs ! j))"
    by (simp add: sort_scores_desc_def)
qed

lemma group_latest_distinct:
  "distinct (map fst acc) \<Longrightarrow> distinct (map fst (group_latest samples acc))"
  by (induction samples arbitrary: acc) auto

lemma market_scores_keys: "map fst (market_scores_of md) = map fst md"
  by (simp add: market_scores_of_def Let_def case_prod_unfold)

lemma rank_market_data_nth:
  assumes d: "distinct (map fst md)" and j: "j < length md"
  shows "length (rank_market_data md) = length md"
    and "fst (rank_market_data md ! j) = fst (md ! j)"
    and "mr_score (snd (rank_market_data md ! j)) = snd (market_scores_of md ! j)"
    and "mr_rank (snd (rank_market_data md ! j)) =
           int (1 + first_index (map fst (sort_scores_desc (market_scores_of md))) (fst (md ! j)))"
proof -
  let ?xs = "market_scores_of md"
  let ?ss = "sort_scores_desc ?xs"
  have "mset (map fst ?ss) = mset (map fst ?xs)" by (simp add: sort_scores_desc_def)
  then have dss: "distinct (map fst ?ss)" and sss: "set (map fst ?ss) = set (map fst md)"
    using d market_scores_keys [of md] by (metis mset_eq_imp_distinct_iff, metis set_mset_mset)
  obtain rks0 where r: "rank_market_data md = fold assign_rank_step (enumerate 1 ?ss) rks0"
    and l0: "length rks0 = length md"
    and k0: "fst (rks0 ! j) = fst (md ! j)"
    and s0: "mr_score (snd (rks0 ! j)) = snd (?xs ! j)"
    using j by (simp add: rank_market_data_def market_scores_of_def Let_def case_prod_unfold)
  note F = fold_assign_rank [OF dss, of 1 rks0]
  have mem: "fst (rks0 ! j) \<in> set (map fst ?ss)" unfolding sss k0 using j by simp
  show "length (rank_market_data md) = length md" unfolding r F by (simp add: l0)
  have nth: "rank_market_data md ! j =
     (fst (rks0 ! j),
      (snd (rks0 ! j))\<lparr>mr_rank := int (1 + first_index (map fst ?ss) (fst (rks0 ! j)))\<rparr>)"
    unfolding r F using j l0 mem by (simp add: case_prod_unfold)
  show "fst (rank_market_data md ! j) = fst (md ! j)" unfolding nth by (simp add: k0)
  show "mr_score (snd (rank_market_data md ! j)) = snd (?xs ! j)" unfolding nth by (simp add: s0)
  show "mr_rank (snd (rank_market_data md ! j)) =
           int (1 + first_index (map fst ?ss) (fst (md ! j)))" unfolding nth by (simp add: k0)
qed

lemma fold_assign_keys: "map fst (fold assign_rank_step es rks) = map fst rks"
proof (induction es arbitrary: rks)
  case Nil
  then show ?case by simp
next
  case (Cons e es)
  obtain n k sc where e: "e = (n, k, sc)" by (cases e)
  show ?case using Cons.IH [of "assign_rank_step e rks"]
    by (simp add: e assign_rank_step_eq set_rank_keys)
qed

lemma rank_market_data_keys: "map fst (rank_market_data md) = map fst md"
  by (simp add: rank_market_data_def Let_def fold_assign_keys case_prod_unfold)

lemma rank_market_data_ranks:
  assumes d: "distinct (map fst md)"
  shows "mset (map (mr_rank \<circ> snd) (rank_market_data md)) = mset (map int [1..<Suc (length md)])"
proof -
  let ?ks' = "map fst (sort_scores_desc (market_scores_of md))"
  have len: "length (rank_market_data md) = length md"
    using rank_market_data_keys [of md] by (metis length_map)
  have "mset ?ks' = mset (map fst (market_scores_of md))"
    by (simp add: sort_scores_desc_def)
  then have m: "mset ?ks' = mset (map fst md)"
    by (simp only: market_scores_keys)
  then have dk: "distinct ?ks'" using d by (metis mset_eq_imp_distinct_iff)
  have lk: "length ?ks' = length md" using m by (metis length_map size_mset)
  have "map (mr_rank \<circ> snd) (rank_market_data md)
        = map (\<lambda>k. int (Suc (first_index ?ks' k))) (map fst md)"
    by (rule nth_equalityI) (simp_all add: len rank_market_data_nth(4) [OF d])
  then have "mset (map (mr_rank \<circ> snd) (rank_market_data md))
        = image_mset (\<lambda>n. int (Suc n)) (mset (map (first_index ?ks') (map fst md)))"
    by (simp add: multiset.map_comp comp_def)
  also have "\<dots> = image_mset (\<lambda>n. int (Suc n)) (mset [0..<length md])"
    using mset_first_index_perm [OF dk m [symmetric]] lk by simp
  also have "\<dots> = mset (map int (map Suc [0..<length md]))"
    by (simp add: multiset.map_comp comp_def)
  also have "map Suc [0..<length md] = [1..<Suc (length md)]"
    by (simp add: map_Suc_upt)
  finally show ?thesis .
qed

text \<open>
  Claim C5, amended. The keys of the map returned by \<^verbatim>\<open>_calculate_rankings\<close> are the
  symbols of the query result in the order of their first occurrence there, that is, most
  recently sampled first: this is the insertion order of the dictionary. Its rank fields
  are a permutation of \<open>1..N\<close>, \<open>N\<close> the number of entries: no duplicate and no gap. A
  smaller rank never has a smaller score, and of two entries with the same score the one
  inserted first (the one sampled more recently) has the smaller rank. The order in which
  the catalog discovered the markets plays no part. Scores are compared as reals.
\<close>

theorem ranking_is_dense_and_stable:
  assumes "rs = calculate_rankings (Ok latest_samples)"
  shows "map fst rs = map fst (group_latest latest_samples [])
       \<and> mset (map (mr_rank \<circ> snd) rs) = mset (map int [1..<Suc (length rs)])
       \<and> (\<forall>i j. i < length rs \<and> j < length rs
                \<and> mr_rank (snd (rs ! i)) < mr_rank (snd (rs ! j))
              \<longrightarrow> mr_score (snd (rs ! i)) \<ge> mr_score (snd (rs ! j)))
       \<and> (\<forall>i j. i < j \<and> j < length rs \<and> mr_score (snd (rs ! i)) = mr_score (snd (rs ! j))
              \<longrightarrow> mr_rank (snd (rs ! i)) < mr_rank (snd (rs ! j)))"
proof -
  define md where "md = group_latest latest_samples []"
  have rs: "rs = rank_market_data md" using assms by (simp add: calculate_rankings_def md_def)
  have d: "distinct (map fst md)" unfolding md_def by (rule group_latest_distinct) simp
  have keys: "map fst rs = map fst md" unfolding rs by (rule rank_market_data_keys)
  then have len: "length rs = length md" by (metis length_map)
  let ?xs = "market_scores_of md"
  have dx: "distinct (map fst ?xs)" using d by (simp add: market_scores_keys)
  have lx: "length ?xs = length md" using market_scores_keys [of md] by (metis length_map)
  have kx: "\<And>j. j < length md \<Longrightarrow> fst (md ! j) = fst (?xs ! j)"
    using market_scores_keys [of md] lx by (metis nth_map)
  have ranks: "mset (map (mr_rank \<circ> snd) rs) = mset (map int [1..<Suc (length rs)])"
    unfolding rs len [unfolded rs] by (rule rank_market_data_ranks [OF d])
  have desc: "\<forall>i j. i < length rs \<and> j < length rs
                \<and> mr_rank (snd (rs ! i)) < mr_rank (snd (rs ! j))
              \<longrightarrow> mr_score (snd (rs ! i)) \<ge> mr_score (snd (rs ! j))"
  proof (intro allI impI)
    fix i j
    assume a: "i < length rs \<and> j < length rs \<and> mr_rank (snd (rs ! i)) < mr_rank (snd (rs ! j))"
    then have i: "i < length md" and j: "j < length md" using len by simp_all
    from a have "first_index (map fst (sort_scores_desc ?xs)) (fst (?xs ! i))
                 < first_index (map fst (sort_scores_desc ?xs)) (fst (?xs ! j))"
      unfolding rs rank_market_data_nth(4) [OF d i] rank_market_data_nth(4) [OF d j]
        kx [OF i] kx [OF j] by simp
    then have "snd (?xs ! i) \<ge> snd (?xs ! j)"
      using stable_desc_positions(1) [OF dx, of i j] i j lx by simp
    then show "mr_score (snd (rs ! i)) \<ge> mr_score (snd (rs ! j))"
      unfolding rs rank_market_data_nth(3) [OF d i] rank_market_data_nth(3) [OF d j] .
  qed
  have stab: "\<forall>i j. i < j \<and> j < length rs \<and> mr_score (snd (rs ! i)) = mr_score (snd (rs ! j))
              \<longrightarrow> mr_rank (snd (rs ! i)) < mr_rank (snd (rs ! j))"
  proof (intro allI impI)
    fix i j
    assume a: "i < j \<and> j < length rs \<and> mr_score (snd (rs ! i)) = mr_score (snd (rs ! j))"
    then have ij: "i < j" and j: "j < length md" and i: "i < length md" using len by simp_all
    from a have "snd (?xs ! i) = snd (?xs ! j)"
      unfolding rs rank_market_data_nth(3) [OF d i] rank_market_data_nth(3) [OF d j] by simp
    then have "first_index (map fst (sort_scores_desc ?xs)) (fst (?xs ! i))
                 < first_index (map fst (sort_scores_desc ?xs)) (fst (?xs ! j))"
      using stable_desc_positions(2) [OF dx, of i j] i j ij lx by simp
    then show "mr_rank (snd (rs ! i)) < mr_rank (snd (rs ! j))"
      unfolding rs rank_market_data_nth(4) [OF d i] rank_market_data_nth(4) [OF d j]
        kx [OF i] kx [OF j] by simp
  qed
  from keys ranks desc stab show ?thesis unfolding md_def by blast
qed

lemma ranking_example_ranks:
  "map (\<lambda>(k, r). (k, mr_rank r, mr_score r)) (calculate_rankings (Ok ranking_example))
     = [(''SOL'', 2, 1 / 5), (''BTC'', 1, 1 / 2), (''ETH'', 3, 1 / 5)]"
  by (simp add: calculate_rankings_def ranking_example_def empty_sample_def rank_market_data_def
        Let_def List.map_filter_def score_of_def or_zero_def calculate_percentile_rank_def
        sort_scores_desc_def assign_rank_step_def set_rank_def)

theorem ranking_is_dense_and_stable_witness:
  "map fst (calculate_rankings (Ok ranking_example)) = [''SOL'', ''BTC'', ''ETH'']
   \<and> mset (map (mr_rank \<circ> snd) (calculate_rankings (Ok ranking_example))) = mset [1, 2, 3]"
proof -
  let ?rs = "calculate_rankings (Ok ranking_example)"
  note T = ranking_is_dense_and_stable [OF refl, of ranking_example]
  from T have "map fst ?rs = map fst (group_latest ranking_example [])" by blast
  then have k: "map fst ?rs = [''SOL'', ''BTC'', ''ETH'']"
    by (simp add: ranking_example_def empty_sample_def)
  then have "length (map fst ?rs) = 3" by simp
  then have l: "length ?rs = 3" by simp
  from T have "mset (map (mr_rank \<circ> snd) ?rs) = mset (map int [1..<Suc (length ?rs)])"
    by blast
  then have "mset (map (mr_rank \<circ> snd) ?rs) = mset [1, 2, 3]"
    unfolding l by (simp add: upt_rec)
  with k show ?thesis by blast
qed

text \<open>
  Claim C5 as stated has score ties keep the discovery order of the markets. The catalog
  below discovered BTC, ETH, SOL in this order; ETH and SOL have the same score 1/5.
  When SOL has the newer sample, SOL gets rank 2 and ETH rank 3, against the discovery
  order; when ETH has the newer sample, the two ranks are exchanged. The tie is broken by
  the time of the samples, and the catalog is not read.
\<close>

theorem tie_order_counterexample:
  "map mi_symbol_raw (markets due_example) = [''BTC'', ''ETH'', ''SOL'']
   \<and> map_option mr_score (map_of (calculate_rankings (Ok ranking_example)) ''ETH'') = Some (1 / 5)
   \<and> map_option mr_score (map_of (calculate_rankings (Ok ranking_example)) ''SOL'') = Some (1 / 5)
   \<and> map_option mr_rank (map_of (calculate_rankings (Ok ranking_example)) ''ETH'') = Some 3
   \<and> map_option mr_rank (map_of (calculate_rankings (Ok ranking_example)) ''SOL'') = Some 2
   \<and> map_option mr_rank (map_of (calculate_rankings (Ok ranking_example_swapped)) ''ETH'')
       = Some 2
   \<and> map_option mr_rank (map_of (calculate_rankings (Ok ranking_example_swapped)) ''SOL'')
       = Some 3"
  by (simp add: due_example_def init_collector_def perp_market_def
        calculate_rankings_def ranking_example_def ranking_example_swapped_def
        empty_sample_def rank_market_data_def
        Let_def List.map_filter_def score_of_def or_zero_def calculate_percentile_rank_def
        sort_scores_desc_def assign_rank_step_def set_rank_def)

section \<open>Further facts on the level update\<close>

text \<open>
  The third branch of the loop body is never taken: a current level is either different
  from A or equal to A.
\<close>

lemma direct_branch_unreachable:
  "hysteresis_step (k, r) acc =
     (if current_level_of (fst acc) k \<noteq> A
      then promotion_branch k r (current_level_of (fst acc) k) acc
      else demotion_branch k r A acc)"
  by (simp add: hysteresis_step_def Let_def)

text \<open>
  The promotion streak with a spread that is present: for a level-B market the cycles
  eligible, eligible, ineligible, eligible, eligible (rank 50 or 150, spread 5 bps) leave
  it at B with a streak of 2, and a sixth, eligible cycle promotes it to A at 250 ms with
  the streak back at 0.
\<close>

lemma promotion_streak_example:
  fixes st5 st6 :: collector
  defines "st5 \<equiv>
     refresh_rankings 0 [ranking_of ''XYZ'' 50 (Some 5)]
       (refresh_rankings 0 [ranking_of ''XYZ'' 50 (Some 5)]
          (refresh_rankings 0 [ranking_of ''XYZ'' 150 (Some 5)]
             (refresh_rankings 0 [ranking_of ''XYZ'' 50 (Some 5)]
                (refresh_rankings 0 [ranking_of ''XYZ'' 50 (Some 5)]
                   ((init_collector 0)\<lparr>markets := [perp_market ''XYZ''],
                       schedules := [''XYZ'' \<mapsto> mk_schedule ''XYZ'' B 0 LEVEL_B_INTERVAL_MS]\<rparr>)))))"
  defines "st6 \<equiv> refresh_rankings 0 [ranking_of ''XYZ'' 50 (Some 5)] st5"
  shows "schedules st5 ''XYZ'' = Some (mk_schedule ''XYZ'' B 0 2000)"
    and "promotion_counters st5 ''XYZ'' = 2"
    and "schedules st6 ''XYZ'' = Some (mk_schedule ''XYZ'' A 0 250)"
    and "promotion_counters st6 ''XYZ'' = 0"
  by (simp_all add: st5_def st6_def level_defs)

text \<open>
  What the fallback does guarantee: a safety asset of the catalog that already has a
  schedule entry holds level A or B after \<^verbatim>\<open>_apply_fallback_safety\<close>.
\<close>

lemma fallback_step_keeps_floor:
  assumes "schedules st k = Some s" "ms_level s \<in> {A, B}"
  shows "\<exists>s'. schedules (fallback_step m st) k = Some s' \<and> ms_level s' \<in> {A, B}"
  using assms by (auto simp: fallback_step_def Let_def mk_schedule_def split: option.splits)

lemma fallback_step_sets_floor:
  assumes "mi_base m \<in> SAFETY_ASSETS" "schedules st (mi_symbol_raw m) = Some s"
  shows "\<exists>s'. schedules (fallback_step m st) (mi_symbol_raw m) = Some s' \<and> ms_level s' \<in> {A, B}"
  using assms by (auto simp: fallback_step_def Let_def mk_schedule_def)

lemma fallback_step_keeps_entry:
  assumes "schedules st k = Some s"
  shows "\<exists>s'. schedules (fallback_step m st) k = Some s'"
  using assms by (auto simp: fallback_step_def Let_def split: option.splits)

lemma fold_fallback_keeps_floor:
  assumes "schedules st k = Some s" "ms_level s \<in> {A, B}"
  shows "\<exists>s'. schedules (fold fallback_step ms st) k = Some s' \<and> ms_level s' \<in> {A, B}"
  using assms
proof (induction ms arbitrary: st s)
  case Nil
  then show ?case by simp
next
  case (Cons m ms)
  from fallback_step_keeps_floor [OF Cons.prems, of m] obtain s1
    where "schedules (fallback_step m st) k = Some s1" "ms_level s1 \<in> {A, B}" by blast
  from Cons.IH [OF this] show ?case by simp
qed

lemma fold_fallback_sets_floor:
  assumes "m \<in> set ms" "mi_base m \<in> SAFETY_ASSETS" "schedules st (mi_symbol_raw m) = Some s"
  shows "\<exists>s'. schedules (fold fallback_step ms st) (mi_symbol_raw m) = Some s'
              \<and> ms_level s' \<in> {A, B}"
  using assms
proof (induction ms arbitrary: st s)
  case Nil
  then show ?case by simp
next
  case (Cons x ms)
  show ?case
  proof (cases "x = m")
    case True
    from fallback_step_sets_floor [OF Cons.prems(2,3)] obtain s1
      where "schedules (fallback_step m st) (mi_symbol_raw m) = Some s1" "ms_level s1 \<in> {A, B}"
      by blast
    from fold_fallback_keeps_floor [OF this, of ms] True show ?thesis by simp
  next
    case False
    with Cons.prems have mem: "m \<in> set ms" by simp
    from fallback_step_keeps_entry [OF Cons.prems(3), of x] obtain s1
      where "schedules (fallback_step x st) (mi_symbol_raw m) = Some s1" by blast
    from Cons.IH [OF mem Cons.prems(2) this] show ?thesis by simp
  qed
qed

lemma scheduled_safety_asset_floor:
  assumes "m \<in> set (markets st)" "mi_base m \<in> SAFETY_ASSETS"
    "schedules st (mi_symbol_raw m) = Some s"
  shows "\<exists>s'. schedules (apply_fallback_safety rks st) (mi_symbol_raw m) = Some s'
              \<and> ms_level s' \<in> {A, B}"
  unfolding apply_fallback_safety_def by (rule fold_fallback_sets_floor [OF assms])

end
